theory Spec2Isabelle
  imports Complex_Main
begin

section \<open>Layout nodes (layout.h)\<close>

text \<open>
  Modelled from the spec: the type \<^verbatim>\<open>Length\<close>, declared in \<^verbatim>\<open>length.h\<close>, which is not
  among the sources. The spec's lengths are numeric widths whose quotient is a ratio such as
  0.5, and the code assigns that quotient to a \<^verbatim>\<open>double\<close>; lengths and doubles are both
  real numbers here, with exact arithmetic (rounding and NaN are left out).
\<close>

type_synonym Length = real

text \<open>\<^verbatim>\<open>LayoutNode::NodeType\<close>.\<close>

datatype NodeType = none | box | glue | penalty

text \<open>What a box reports through \<^verbatim>\<open>width()\<close>, \<^verbatim>\<open>ascent()\<close> and \<^verbatim>\<open>descent()\<close>.\<close>

record Geometry =
  width :: Length
  ascent :: Length
  descent :: Length

text \<open>
  A node of the paragraph's list. \<^verbatim>\<open>Box\<close> is abstract in \<^verbatim>\<open>layout.h\<close>: a box node
  carries its current geometry, the geometry its own virtual \<^verbatim>\<open>calc_layout\<close> computes from
  the two hints, and the offset its \<^verbatim>\<open>place\<close> recorded last. A glue has a width, a stretch
  and a shrink (the members of \<^verbatim>\<open>Glue\<close> in \<^verbatim>\<open>layout.h\<close>). \<open>Plain\<close> is a node whose type is
  \<^verbatim>\<open>none\<close>, the default of the \<^verbatim>\<open>LayoutNode\<close> constructor.

  Modelled from the spec: the penalty node, whose class is declared in \<^verbatim>\<open>penalty.h\<close>, not
  among the sources. It has a rendered width, a cost and the flagged bit, which the code
  reads through \<^verbatim>\<open>width()\<close>, \<^verbatim>\<open>penalty()\<close> and \<^verbatim>\<open>flagged()\<close>.
\<close>

datatype LayoutNode =
    Plain Length
  | Box Geometry "Length \<Rightarrow> Length \<Rightarrow> Geometry" "Length \<times> Length"
  | Glue Length Length Length
  | Penalty Length real bool

fun node_type :: "LayoutNode \<Rightarrow> NodeType" where
  "node_type (Plain w) = none"
| "node_type (Box g f pos) = box"
| "node_type (Glue w y z) = glue"
| "node_type (Penalty w p fl) = penalty"

fun node_width :: "LayoutNode \<Rightarrow> Length" where
  "node_width (Plain w) = w"
| "node_width (Box g f pos) = width g"
| "node_width (Glue w y z) = w"
| "node_width (Penalty w p fl) = w"

text \<open>
  The values \<^verbatim>\<open>compute_breaks\<close> extracts for each node into its vectors \<^verbatim>\<open>y\<close>, \<^verbatim>\<open>z\<close>,
  \<^verbatim>\<open>p\<close> and \<^verbatim>\<open>f\<close> (lines 254 to 272): the stretch and the shrink of a glue, the cost
  and the flag of a penalty, and 0 or false for every other node.
\<close>

fun stretch :: "LayoutNode \<Rightarrow> Length" where
  "stretch (Glue w y z) = y"
| "stretch n = 0"

fun shrink :: "LayoutNode \<Rightarrow> Length" where
  "shrink (Glue w y z) = z"
| "shrink n = 0"

fun penalty_cost :: "LayoutNode \<Rightarrow> real" where
  "penalty_cost (Penalty w p fl) = p"
| "penalty_cost n = 0"

fun flagged :: "LayoutNode \<Rightarrow> bool" where
  "flagged (Penalty w p fl) = fl"
| "flagged n = False"

text \<open>
  The two sentinels \<^verbatim>\<open>Penalty<Renderer>::infinity\<close> and \<^verbatim>\<open>Glue<Renderer>::infinity\<close> are
  declared in \<^verbatim>\<open>penalty.h\<close> and \<^verbatim>\<open>glue.h\<close>, which are not among the sources: they are
  parameters of every function that reads them.
\<close>

record Sentinels =
  penalty_infinity :: real
  glue_infinity :: real

text \<open>
  What the code leaves undefined: an index past the end of a vector or \<^verbatim>\<open>back()\<close> of an
  empty one, dereferencing \<^verbatim>\<open>begin()\<close> of an empty list, converting a \<^verbatim>\<open>double\<close> that
  does not fit to \<^verbatim>\<open>int\<close>, and reaching the end of a function that has to return a value.
\<close>

datatype failure = OutOfRange | EmptyActiveList | IntConversion | NoReturn

definition and_then :: "failure + 'a \<Rightarrow> ('a \<Rightarrow> failure + 'b) \<Rightarrow> failure + 'b" where
  "and_then x f = (case x of Inl e \<Rightarrow> Inl e | Inr v \<Rightarrow> f v)"

section \<open>Feasible and forced breaks (par-box.h)\<close>

definition is_feasible_breakpoint :: "Sentinels \<Rightarrow> LayoutNode list \<Rightarrow> nat \<Rightarrow> failure + bool" where
  "is_feasible_breakpoint S nodes i =
     (if i < length nodes then
        (let node = nodes ! i in
         if node_type node = penalty then
           (if penalty_cost node < penalty_infinity S then Inr True else Inr False)
         else if 0 < i \<and> node_type node = glue then
           (if node_type (nodes ! (i - 1)) = box then Inr True else Inr False)
         else Inr False)
      else Inl OutOfRange)"

definition is_forced_break :: "Sentinels \<Rightarrow> LayoutNode list \<Rightarrow> nat \<Rightarrow> failure + bool" where
  "is_forced_break S nodes i =
     (if i < length nodes then
        (let node = nodes ! i in
         if node_type node = penalty then
           (if penalty_cost node \<le> - 1 * penalty_infinity S then Inr True else Inr False)
         else Inr False)
      else Inl OutOfRange)"

section \<open>Greedy layout: \<^verbatim>\<open>ParBox::calc_layout\<close>\<close>

text \<open>The members of \<^verbatim>\<open>ParBox\<close>.\<close>

record ParBox =
  m_nodes :: "LayoutNode list"
  m_vspacing :: Length
  m_hspacing :: Length
  m_width :: Length
  m_ascent :: Length
  m_descent :: Length
  m_voff :: Length
  m_multiline_shift :: Length
  m_x :: Length
  m_y :: Length
  m_sum_widths :: "Length list"
  m_sum_stretch :: "Length list"
  m_sum_shrink :: "Length list"

text \<open>
  The locals of \<^verbatim>\<open>calc_layout\<close>: \<^verbatim>\<open>x_off\<close>, \<^verbatim>\<open>y_off\<close>, \<^verbatim>\<open>lines\<close>, and the running
  \<^verbatim>\<open>ascent\<close> and \<^verbatim>\<open>descent\<close> (here \<open>run_ascent\<close> and \<open>run_descent\<close>).
\<close>

record LayoutVars =
  x_off :: Length
  y_off :: Length
  lines :: int
  run_ascent :: Length
  run_descent :: Length

text \<open>
  The body of the loop over the children, lines 106 to 133: a box child is measured by its
  own \<^verbatim>\<open>calc_layout\<close>, the wrap test comes before \<^verbatim>\<open>place\<close>, and the running ascent and
  descent are updated after it. Every other node leaves the locals as they are.
\<close>

fun layout_node ::
  "Length \<Rightarrow> Length \<Rightarrow> Length \<Rightarrow> Length \<Rightarrow> LayoutVars \<Rightarrow> LayoutNode \<Rightarrow> LayoutVars \<times> LayoutNode" where
  "layout_node vspacing hspacing width_hint height_hint s (Box g f pos) =
     (let g' = f width_hint height_hint;
          s1 = (if x_off s + width g' > width_hint
                then s\<lparr>x_off := 0, y_off := y_off s - vspacing, lines := lines s + 1, run_descent := 0\<rparr>
                else s);
          placed = Box g' f (x_off s1, y_off s1);
          s2 = s1\<lparr>x_off := x_off s1 + width g' + hspacing\<rparr>;
          s3 = (if descent g' > run_descent s2 then s2\<lparr>run_descent := descent g'\<rparr> else s2);
          s4 = (if lines s3 = 0 \<and> ascent g' > run_ascent s3 then s3\<lparr>run_ascent := ascent g'\<rparr> else s3)
      in (s4, placed))"
| "layout_node vspacing hspacing width_hint height_hint s n = (s, n)"

fun layout_nodes ::
  "Length \<Rightarrow> Length \<Rightarrow> Length \<Rightarrow> Length \<Rightarrow> LayoutVars \<Rightarrow> LayoutNode list \<Rightarrow> LayoutVars \<times> LayoutNode list" where
  "layout_nodes vspacing hspacing width_hint height_hint s [] = (s, [])"
| "layout_nodes vspacing hspacing width_hint height_hint s (n # ns) =
     (let (s1, n') = layout_node vspacing hspacing width_hint height_hint s n;
          (s2, ns') = layout_nodes vspacing hspacing width_hint height_hint s1 ns
      in (s2, n' # ns'))"

definition initial_vars :: LayoutVars where
  "initial_vars = \<lparr>x_off = 0, y_off = 0, lines = 0, run_ascent = 0, run_descent = 0\<rparr>"

text \<open>The locals when the walk over the children of \<open>pb\<close> has ended.\<close>

definition final_vars :: "ParBox \<Rightarrow> Length \<Rightarrow> Length \<Rightarrow> LayoutVars" where
  "final_vars pb width_hint height_hint =
     fst (layout_nodes (m_vspacing pb) (m_hspacing pb) width_hint height_hint initial_vars (m_nodes pb))"

text \<open>The locals after the walk has passed the first \<open>k\<close> children.\<close>

definition vars_after :: "ParBox \<Rightarrow> Length \<Rightarrow> Length \<Rightarrow> nat \<Rightarrow> LayoutVars" where
  "vars_after pb width_hint height_hint k =
     fst (layout_nodes (m_vspacing pb) (m_hspacing pb) width_hint height_hint initial_vars
            (take k (m_nodes pb)))"

definition calc_layout :: "ParBox \<Rightarrow> Length \<Rightarrow> Length \<Rightarrow> ParBox" where
  "calc_layout pb width_hint height_hint =
     (let (s, ns) = layout_nodes (m_vspacing pb) (m_hspacing pb) width_hint height_hint
                      initial_vars (m_nodes pb);
          shift = of_int (lines s) * m_vspacing pb
      in pb\<lparr>m_nodes := ns, m_multiline_shift := shift, m_ascent := run_ascent s + shift,
            m_descent := run_descent s, m_width := width_hint\<rparr>)"

text \<open>A box whose own \<^verbatim>\<open>calc_layout\<close> ignores the hints, not yet placed.\<close>

definition fixed_box :: "Length \<Rightarrow> Length \<Rightarrow> Length \<Rightarrow> LayoutNode" where
  "fixed_box w a d =
     Box \<lparr>width = w, ascent = a, descent = d\<rparr> (\<lambda>wh hh. \<lparr>width = w, ascent = a, descent = d\<rparr>) (0, 0)"

text \<open>The offsets \<^verbatim>\<open>place\<close> recorded in the box children, in list order.\<close>

fun placements :: "LayoutNode list \<Rightarrow> (Length \<times> Length) list" where
  "placements [] = []"
| "placements (Box g f pos # ns) = pos # placements ns"
| "placements (n # ns) = placements ns"

section \<open>Line breaking: \<^verbatim>\<open>ParBox::compute_breaks\<close>\<close>

text \<open>\<^verbatim>\<open>operator[]\<close> of a vector: an index past the end is undefined.\<close>

definition vector_at :: "'a list \<Rightarrow> nat \<Rightarrow> failure + 'a" where
  "vector_at xs i = (if i < length xs then Inr (xs ! i) else Inl OutOfRange)"

definition measure_width :: "ParBox \<Rightarrow> nat \<Rightarrow> nat \<Rightarrow> failure + Length" where
  "measure_width pb i1 i2 =
     and_then (vector_at (m_sum_widths pb) i2) (\<lambda>b.
     and_then (vector_at (m_sum_widths pb) i1) (\<lambda>a. Inr (b - a)))"

definition measure_stretch :: "ParBox \<Rightarrow> nat \<Rightarrow> nat \<Rightarrow> failure + Length" where
  "measure_stretch pb i1 i2 =
     and_then (vector_at (m_sum_stretch pb) i2) (\<lambda>b.
     and_then (vector_at (m_sum_stretch pb) i1) (\<lambda>a. Inr (b - a)))"

definition measure_shrink :: "ParBox \<Rightarrow> nat \<Rightarrow> nat \<Rightarrow> failure + Length" where
  "measure_shrink pb i1 i2 =
     and_then (vector_at (m_sum_shrink pb) i2) (\<lambda>b.
     and_then (vector_at (m_sum_shrink pb) i1) (\<lambda>a. Inr (b - a)))"

text \<open>
  Lines 206 to 210: the length available to line \<open>line\<close>; \<^verbatim>\<open>back()\<close> of an empty
  vector is undefined.
\<close>

definition available_length :: "Length list \<Rightarrow> nat \<Rightarrow> failure + Length" where
  "available_length line_lengths line =
     (if line < length line_lengths then Inr (line_lengths ! line)
      else if line_lengths = [] then Inl OutOfRange
      else Inr (last line_lengths))"

definition compute_adjustment_ratio ::
  "Sentinels \<Rightarrow> ParBox \<Rightarrow> nat \<Rightarrow> nat \<Rightarrow> nat \<Rightarrow> Length list \<Rightarrow> failure + real" where
  "compute_adjustment_ratio S pb i1 i2 line line_lengths =
     and_then (measure_width pb i1 i2) (\<lambda>len0.
     and_then (vector_at (m_nodes pb) i2) (\<lambda>node.
     let len = (if node_type node = penalty then len0 + node_width node else len0) in
     and_then (available_length line_lengths line) (\<lambda>len_avail.
       if len < len_avail then
         and_then (measure_stretch pb i1 i2) (\<lambda>stretch_sum.
           if stretch_sum > 0 then Inr ((len_avail - len) / stretch_sum)
           else Inr (glue_infinity S))
       else if len > len_avail then
         and_then (measure_shrink pb i1 i2) (\<lambda>shrink_sum.
           if shrink_sum > 0 then Inr ((len_avail - len) / shrink_sum)
           else Inr (glue_infinity S))
       else Inr 0)))"

text \<open>
  \<^verbatim>\<open>struct Breakpoint\<close>. The pointer \<^verbatim>\<open>previous\<close> is the breakpoint it points to, if any.
\<close>

datatype Breakpoint =
  Breakpoint (position: nat) (line: nat) (fitness_class: int)
    (totalwidth: Length) (totalstretch: Length) (totalshrink: Length)
    (demerits: int) (previous: "Breakpoint option")

text \<open>
  \<^verbatim>\<open>add_active_node\<close>: the first loop skips the entries of a smaller line number, the
  second looks for the same fitness class and position among the entries of the same line
  number and returns without inserting when it finds one.
\<close>

fun same_line_duplicate :: "Breakpoint list \<Rightarrow> Breakpoint \<Rightarrow> bool" where
  "same_line_duplicate [] node = False"
| "same_line_duplicate (b # bs) node =
     (if line b = line node then
        (if fitness_class b = fitness_class node \<and> position b = position node then True
         else same_line_duplicate bs node)
      else False)"

fun add_active_node :: "Breakpoint list \<Rightarrow> Breakpoint \<Rightarrow> Breakpoint list" where
  "add_active_node [] node = [node]"
| "add_active_node (b # bs) node =
     (if line b < line node then b # add_active_node bs node
      else if same_line_duplicate (b # bs) node then b # bs
      else node # b # bs)"

text \<open>
  The conversion of a \<^verbatim>\<open>double\<close> to the \<^verbatim>\<open>int\<close> member \<^verbatim>\<open>demerits\<close>: the fraction is
  dropped, and a value outside a 32-bit \<^verbatim>\<open>int\<close> is undefined.
\<close>

definition double_to_int :: "real \<Rightarrow> failure + int" where
  "double_to_int x =
     (let t = (if 0 \<le> x then \<lfloor>x\<rfloor> else \<lceil>x\<rceil>)
      in if - (2 ^ 31) \<le> t \<and> t < 2 ^ 31 then Inr t else Inl IntConversion)"

text \<open>
  Line 317 reads \<^verbatim>\<open>-1 <= r <= tolerance\<close>, which C++ parses as
  \<^verbatim>\<open>(-1 <= r) <= tolerance\<close>: the truth value of the first comparison, 0 or 1, is compared
  with the tolerance.
\<close>

definition within_tolerance :: "real \<Rightarrow> real \<Rightarrow> bool" where
  "within_tolerance r tolerance = ((if - 1 \<le> r then (1::real) else 0) \<le> tolerance)"

text \<open>Lines 333 to 337.\<close>

definition fitness_class_of :: "real \<Rightarrow> int" where
  "fitness_class_of r = (if r < - 0.5 then 0 else if r \<le> 0.5 then 1 else if r \<le> 1 then 2 else 3)"

text \<open>
  Lines 318 to 342: the demerits of the line from an active breakpoint to \<open>i\<close> with ratio
  \<open>r\<close>, where \<open>p_i\<close> and \<open>f_i\<close> are the cost and the flag of node \<open>i\<close>, \<open>f_a\<close> is the flag of the
  node at the active breakpoint's position, \<open>class_a\<close> its fitness class, and \<open>forced\<close> is
  \<^verbatim>\<open>is_forced_break(i)\<close>.
\<close>

definition line_demerits ::
  "real \<Rightarrow> real \<Rightarrow> real \<Rightarrow> bool \<Rightarrow> bool \<Rightarrow> bool \<Rightarrow> real \<Rightarrow> int \<Rightarrow> real" where
  "line_demerits fitness_demerit flagged_demerit p_i forced f_i f_a r class_a =
     (let d0 = (if p_i \<ge> 0 then (1 + 100 * \<bar>r\<bar> ^ 3 + p_i) ^ 3
                else if forced then (1 + 100 * \<bar>r\<bar> ^ 3) ^ 2 - p_i ^ 2
                else (1 + 100 * \<bar>r\<bar> ^ 3) ^ 2);
          d1 = d0 + flagged_demerit * of_bool f_i * of_bool f_a
      in if \<bar>fitness_class_of r - class_a\<bar> > 1 then d1 + fitness_demerit else d1)"

text \<open>
  Lines 345 to 349: the breakpoint recorded for the line from \<open>a\<close> to \<open>i\<close>. The constructor
  gets seven arguments, so \<^verbatim>\<open>previous\<close> takes its default \<^verbatim>\<open>nullptr\<close>, and the
  demerits passed are those of this line alone. (\<^verbatim>\<open>breaks\<close> is declared a
  \<^verbatim>\<open>vector<size_t>\<close>; it is read as the list of breakpoints that \<^verbatim>\<open>emplace_back\<close> and
  \<^verbatim>\<open>add_active_node\<close> treat it as.)
\<close>

definition new_breakpoint ::
  "Sentinels \<Rightarrow> ParBox \<Rightarrow> real \<Rightarrow> real \<Rightarrow> nat \<Rightarrow> Breakpoint \<Rightarrow> real \<Rightarrow> failure + Breakpoint" where
  "new_breakpoint S pb fitness_demerit flagged_demerit i a r =
     and_then (vector_at (map penalty_cost (m_nodes pb)) i) (\<lambda>p_i.
     and_then (if p_i \<ge> 0 then Inr False else is_forced_break S (m_nodes pb) i) (\<lambda>forced.
     and_then (vector_at (map flagged (m_nodes pb)) i) (\<lambda>f_i.
     and_then (vector_at (map flagged (m_nodes pb)) (position a)) (\<lambda>f_a.
     and_then (vector_at (m_sum_widths pb) i) (\<lambda>tw.
     and_then (vector_at (m_sum_stretch pb) i) (\<lambda>ty.
     and_then (vector_at (m_sum_shrink pb) i) (\<lambda>tz.
     and_then (double_to_int (line_demerits fitness_demerit flagged_demerit p_i forced f_i f_a r
                              (fitness_class a))) (\<lambda>d.
       Inr (Breakpoint i (line a + 1) (fitness_class_of r) tw ty tz d None)))))))))"

text \<open>
  The \<^verbatim>\<open>while\<close> loop of lines 306 to 352 over the active list at position \<open>i\<close>: its result
  is the list without the erased entries, and the new breakpoints in the order recorded.
\<close>

fun visit_active ::
  "Sentinels \<Rightarrow> ParBox \<Rightarrow> Length list \<Rightarrow> real \<Rightarrow> real \<Rightarrow> real \<Rightarrow> nat \<Rightarrow> Breakpoint list
     \<Rightarrow> failure + (Breakpoint list \<times> Breakpoint list)" where
  "visit_active S pb line_lengths tolerance fitness_demerit flagged_demerit i [] = Inr ([], [])"
| "visit_active S pb line_lengths tolerance fitness_demerit flagged_demerit i (a # rest) =
     and_then (compute_adjustment_ratio S pb (position a) i (line a) line_lengths) (\<lambda>r.
     and_then (if r < - 1 then Inr True else is_forced_break S (m_nodes pb) i) (\<lambda>erase.
       if erase then visit_active S pb line_lengths tolerance fitness_demerit flagged_demerit i rest
       else
         and_then (if within_tolerance r tolerance
                   then and_then (new_breakpoint S pb fitness_demerit flagged_demerit i a r)
                          (\<lambda>b. Inr [b])
                   else Inr []) (\<lambda>new.
         and_then (visit_active S pb line_lengths tolerance fitness_demerit flagged_demerit i rest)
           (\<lambda>(kept, breaks). Inr (a # kept, new @ breaks)))))"

text \<open>
  Lines 362 to 375: the first entry of the lowest demerits among the active list, starting
  from the entry \<open>i_min\<close>; the code dereferences \<^verbatim>\<open>begin()\<close> without a test.
\<close>

fun lowest_from :: "Breakpoint \<Rightarrow> Breakpoint list \<Rightarrow> Breakpoint" where
  "lowest_from i_min [] = i_min"
| "lowest_from i_min (a # rest) =
     (if demerits a < demerits i_min then lowest_from a rest else lowest_from i_min rest)"

definition lowest_demerits :: "Breakpoint list \<Rightarrow> failure + Breakpoint" where
  "lowest_demerits active_nodes =
     (case active_nodes of [] \<Rightarrow> Inl EmptyActiveList | a # rest \<Rightarrow> Inr (lowest_from a rest))"

text \<open>Lines 380 to 385: the positions along the \<^verbatim>\<open>previous\<close> pointers, then reversed.\<close>

fun back_chain :: "Breakpoint \<Rightarrow> nat list" where
  "back_chain (Breakpoint pos l fc tw ty tz d prev) =
     pos # (case prev of None \<Rightarrow> [] | Some q \<Rightarrow> back_chain q)"

definition final_breaks_of :: "Breakpoint \<Rightarrow> nat list" where
  "final_breaks_of i_min = rev (back_chain i_min)"

text \<open>
  The body of the \<^verbatim>\<open>for\<close> loop (lines 297 to 388) at position \<open>i\<close>: the new active list and
  the local \<^verbatim>\<open>final_breaks\<close> this iteration builds.
\<close>

definition break_step ::
  "Sentinels \<Rightarrow> ParBox \<Rightarrow> Length list \<Rightarrow> real \<Rightarrow> real \<Rightarrow> real \<Rightarrow> nat \<Rightarrow> Breakpoint list
     \<Rightarrow> failure + (Breakpoint list \<times> nat list)" where
  "break_step S pb line_lengths tolerance fitness_demerit flagged_demerit i active_nodes =
     and_then (is_feasible_breakpoint S (m_nodes pb) i) (\<lambda>feasible.
     and_then (if feasible
               then and_then (visit_active S pb line_lengths tolerance fitness_demerit
                                flagged_demerit i active_nodes)
                      (\<lambda>(kept, breaks). Inr (foldl add_active_node kept breaks))
               else Inr active_nodes) (\<lambda>active'.
     and_then (lowest_demerits active') (\<lambda>i_min.
       Inr (active', final_breaks_of i_min))))"

text \<open>The \<^verbatim>\<open>for\<close> loop over the positions \<open>is\<close>, from the active list of \<open>st\<close>.\<close>

fun break_loop ::
  "Sentinels \<Rightarrow> ParBox \<Rightarrow> Length list \<Rightarrow> real \<Rightarrow> real \<Rightarrow> real \<Rightarrow> nat list
     \<Rightarrow> Breakpoint list \<times> nat list \<Rightarrow> failure + (Breakpoint list \<times> nat list)" where
  "break_loop S pb line_lengths tolerance fitness_demerit flagged_demerit [] st = Inr st"
| "break_loop S pb line_lengths tolerance fitness_demerit flagged_demerit (i # is) st =
     and_then (break_step S pb line_lengths tolerance fitness_demerit flagged_demerit i (fst st))
       (break_loop S pb line_lengths tolerance fitness_demerit flagged_demerit is)"

text \<open>Lines 275 to 289: the sums of the entries before each position.\<close>

fun sums_before :: "Length \<Rightarrow> Length list \<Rightarrow> Length list" where
  "sums_before acc [] = []"
| "sums_before acc (x # xs) = acc # sums_before (acc + x) xs"

definition with_sums :: "ParBox \<Rightarrow> ParBox" where
  "with_sums pb =
     pb\<lparr>m_sum_widths := sums_before 0 (map node_width (m_nodes pb)),
        m_sum_stretch := sums_before 0 (map stretch (m_nodes pb)),
        m_sum_shrink := sums_before 0 (map shrink (m_nodes pb))\<rparr>"

text \<open>Line 294: the break at the beginning of the text.\<close>

definition start_breakpoint :: Breakpoint where
  "start_breakpoint = Breakpoint 0 0 1 0 0 0 0 None"

text \<open>
  The active list and the local \<^verbatim>\<open>final_breaks\<close> after the first \<open>k\<close> iterations of the
  \<^verbatim>\<open>for\<close> loop.
\<close>

definition scan_upto ::
  "Sentinels \<Rightarrow> ParBox \<Rightarrow> Length list \<Rightarrow> real \<Rightarrow> real \<Rightarrow> real \<Rightarrow> nat
     \<Rightarrow> failure + (Breakpoint list \<times> nat list)" where
  "scan_upto S pb line_lengths tolerance fitness_demerit flagged_demerit k =
     break_loop S (with_sums pb) line_lengths tolerance fitness_demerit flagged_demerit
       [0 ..< k] ([start_breakpoint], [])"

text \<open>
  \<^verbatim>\<open>compute_breaks\<close>: an empty node list returns the empty list. Otherwise the loop runs
  over all positions; each iteration builds \<^verbatim>\<open>final_breaks\<close> and drops it, and after the loop
  the function ends without a \<^verbatim>\<open>return\<close>.
\<close>

definition compute_breaks ::
  "Sentinels \<Rightarrow> ParBox \<Rightarrow> Length list \<Rightarrow> real \<Rightarrow> real \<Rightarrow> real \<Rightarrow> failure + nat list" where
  "compute_breaks S pb line_lengths tolerance fitness_demerit flagged_demerit =
     (let m = length (m_nodes pb) in
      if m = 0 then Inr []
      else and_then (scan_upto S pb line_lengths tolerance fitness_demerit flagged_demerit m)
             (\<lambda>st. Inl NoReturn))"

text \<open>
  The working set's invariant: no two entries share the triple of line number, fitness
  class and position, and the line numbers never decrease along the list.
\<close>

definition triple :: "Breakpoint \<Rightarrow> nat \<times> int \<times> nat" where
  "triple b = (line b, fitness_class b, position b)"

definition active_ok :: "Breakpoint list \<Rightarrow> bool" where
  "active_ok active_nodes =
     (sorted_wrt (\<lambda>a b. line a \<le> line b) active_nodes \<and> distinct (map triple active_nodes))"

section \<open>Example inputs\<close>

text \<open>
  The constructor \<^verbatim>\<open>ParBox(nodes, vspacing, hspacing)\<close>. It leaves \<^verbatim>\<open>m_multiline_shift\<close>
  uninitialised (0 here) and the three vectors of sums empty.
\<close>

definition new_ParBox :: "LayoutNode list \<Rightarrow> Length \<Rightarrow> Length \<Rightarrow> ParBox" where
  "new_ParBox nodes vspacing hspacing =
     \<lparr>m_nodes = nodes, m_vspacing = vspacing, m_hspacing = hspacing,
      m_width = 0, m_ascent = 0, m_descent = 0, m_voff = 0, m_multiline_shift = 0,
      m_x = 0, m_y = 0, m_sum_widths = [], m_sum_stretch = [], m_sum_shrink = []\<rparr>"

text \<open>
  Four fixed boxes of widths 30, 40, 20 and 50, horizontal spacing 5, line spacing 15.
\<close>

definition example_paragraph :: ParBox where
  "example_paragraph =
     new_ParBox [fixed_box 30 10 3, fixed_box 40 12 2, fixed_box 20 9 4, fixed_box 50 11 1] 15 5"

text \<open>A paragraph whose first box child, after a glue, is wider than the hint 80.\<close>

definition wide_paragraph :: ParBox where
  "wide_paragraph = new_ParBox [Glue 5 2 1, fixed_box 90 10 3, fixed_box 20 12 2] 15 5"

text \<open>Sentinels of 10000 for the concrete runs below.\<close>

definition example_sentinels :: Sentinels where
  "example_sentinels = \<lparr>penalty_infinity = 10000, glue_infinity = 10000\<rparr>"

text \<open>
  A box, a glue, a breakable penalty, a penalty of infinite cost, and a glue that does not
  follow a box.
\<close>

definition mixed_nodes :: "LayoutNode list" where
  "mixed_nodes = [fixed_box 10 8 2, Glue 5 2 1, Penalty 0 50 False, Penalty 0 10000 False, Glue 5 2 1]"

text \<open>A single box.\<close>

definition one_box :: ParBox where
  "one_box = new_ParBox [fixed_box 10 8 2] 15 5"

text \<open>Two boxes of width 10, each followed by a glue; the first glue can shrink by 1.\<close>

definition two_lines :: ParBox where
  "two_lines = new_ParBox [fixed_box 10 8 2, Glue 0 0 1, fixed_box 10 8 2, Glue 0 0 0] 15 5"

text \<open>A glue that stretches by 10, a box of width 25 and a glue to break at.\<close>

definition stretchy :: ParBox where
  "stretchy = new_ParBox [Glue 0 10 0, fixed_box 25 8 2, Glue 0 0 0] 15 5"

text \<open>A forced break (cost \<open>- 10000\<close>) as the last node, after one box.\<close>

definition forced_end :: ParBox where
  "forced_end = new_ParBox [fixed_box 10 8 2, Penalty 0 (- 10000) False] 15 5"

text \<open>A box of width 30 after a glue that can shrink by 1, and a glue to break at.\<close>

definition overfull :: ParBox where
  "overfull = new_ParBox [Glue 0 0 1, fixed_box 30 8 2, Glue 0 0 0] 15 5"

text \<open>A forced break at position 1, between two boxes, and a glue at the end.\<close>

definition forced_middle :: ParBox where
  "forced_middle =
     new_ParBox [fixed_box 10 8 2, Penalty 0 (- 10000) False, fixed_box 10 8 2, Glue 0 0 0] 15 5"

text \<open>Content of width 90 between positions 0 and 3, with a total stretch of 20.\<close>

definition ninety_wide :: ParBox where
  "ninety_wide =
     with_sums (new_ParBox [fixed_box 45 8 2, Glue 0 20 0, fixed_box 45 8 2, Glue 0 0 0] 15 5)"

section \<open>Theorems\<close>

subsection \<open>Feasible breakpoints\<close>

text \<open>
  C8: for every node list and every index \<open>i\<close> into it, \<open>is_feasible_breakpoint\<close> answers
  true exactly when node \<open>i\<close> is a penalty whose cost is strictly below the infinity sentinel,
  or \<open>i > 0\<close>, node \<open>i\<close> is a glue and node \<open>i - 1\<close> is a box.
\<close>

theorem is_feasible_breakpoint_iff:
  assumes "i < length nodes"
  shows "is_feasible_breakpoint S nodes i =
           Inr ((node_type (nodes ! i) = penalty \<and> penalty_cost (nodes ! i) < penalty_infinity S)
              \<or> (0 < i \<and> node_type (nodes ! i) = glue \<and> node_type (nodes ! (i - 1)) = box))"
  using assms by (simp add: is_feasible_breakpoint_def Let_def)

theorem is_feasible_breakpoint_iff_witness:
  "is_feasible_breakpoint example_sentinels mixed_nodes 1 = Inr True
   \<and> is_feasible_breakpoint example_sentinels mixed_nodes 2 = Inr True
   \<and> is_feasible_breakpoint example_sentinels mixed_nodes 3 = Inr False
   \<and> is_feasible_breakpoint example_sentinels mixed_nodes 4 = Inr False"
  using is_feasible_breakpoint_iff [of 1 mixed_nodes example_sentinels]
    is_feasible_breakpoint_iff [of 2 mixed_nodes example_sentinels]
    is_feasible_breakpoint_iff [of 3 mixed_nodes example_sentinels]
    is_feasible_breakpoint_iff [of 4 mixed_nodes example_sentinels]
  by (simp add: mixed_nodes_def example_sentinels_def fixed_box_def)

subsection \<open>Greedy layout\<close>

lemma layout_node_box:
  assumes "f wh hh = \<lparr>width = w, ascent = a, descent = d\<rparr>"
  shows "layout_node v h wh hh s (Box g f pos) =
    (let s1 = (if x_off s + w > wh
                then s\<lparr>x_off := 0, y_off := y_off s - v, lines := lines s + 1, run_descent := 0\<rparr>
                else s)
     in (s1\<lparr>x_off := x_off s1 + w + h,
            run_descent := max (run_descent s1) d,
            run_ascent := (if lines s1 = 0 then max (run_ascent s1) a else run_ascent s1)\<rparr>,
         Box \<lparr>width = w, ascent = a, descent = d\<rparr> f (x_off s1, y_off s1)))"
  using assms by (simp add: Let_def max_def)

lemma layout_node_lines_mono: "lines s \<le> lines (fst (layout_node v h wh hh s n))"
  by (cases n) (simp_all add: Let_def)

lemma layout_node_ascent_keep:
  "1 \<le> lines s \<Longrightarrow> run_ascent (fst (layout_node v h wh hh s n)) = run_ascent s"
  by (cases n) (simp_all add: Let_def)

lemma layout_nodes_later_lines:
  "1 \<le> lines s \<Longrightarrow>
     1 \<le> lines (fst (layout_nodes v h wh hh s ns))
   \<and> run_ascent (fst (layout_nodes v h wh hh s ns)) = run_ascent s"
proof (induction ns arbitrary: s)
  case Nil
  then show ?case by simp
next
  case (Cons n ns)
  obtain s1 n' where step: "layout_node v h wh hh s n = (s1, n')"
    by (cases "layout_node v h wh hh s n")
  have "lines s \<le> lines s1" "run_ascent s1 = run_ascent s"
    using layout_node_lines_mono [of s v h wh hh n] layout_node_ascent_keep [OF Cons.prems, of v h wh hh n] step
    by simp_all
  with Cons.prems Cons.IH [of s1] step show ?case
    by (simp add: split_beta)
qed

lemma layout_nodes_no_box:
  "\<forall>n \<in> set pre. node_type n \<noteq> box \<Longrightarrow> layout_nodes v h wh hh s pre = (s, pre)"
proof (induction pre)
  case Nil
  then show ?case by simp
next
  case (Cons n pre)
  then have "layout_node v h wh hh s n = (s, n)"
    by (cases n) simp_all
  with Cons show ?case by simp
qed

lemma layout_nodes_append:
  "layout_nodes v h wh hh s (xs @ ys) =
     (let (s1, xs') = layout_nodes v h wh hh s xs;
          (s2, ys') = layout_nodes v h wh hh s1 ys
      in (s2, xs' @ ys'))"
  by (induction xs arbitrary: s) (simp_all add: split_beta)

lemma four_boxes_walk:
  assumes f1: "f1 80 hh = \<lparr>width = 30, ascent = a1, descent = d1\<rparr>"
      and f2: "f2 80 hh = \<lparr>width = 40, ascent = a2, descent = d2\<rparr>"
      and f3: "f3 80 hh = \<lparr>width = 20, ascent = a3, descent = d3\<rparr>"
      and f4: "f4 80 hh = \<lparr>width = 50, ascent = a4, descent = d4\<rparr>"
  shows "layout_nodes v 5 80 hh initial_vars [Box g1 f1 p1, Box g2 f2 p2, Box g3 f3 p3, Box g4 f4 p4] =
           (\<lparr>x_off = 80, y_off = - v, lines = 1,
             run_ascent = max (max 0 a1) a2, run_descent = max (max 0 d3) d4\<rparr>,
            [Box \<lparr>width = 30, ascent = a1, descent = d1\<rparr> f1 (0, 0),
             Box \<lparr>width = 40, ascent = a2, descent = d2\<rparr> f2 (35, 0),
             Box \<lparr>width = 20, ascent = a3, descent = d3\<rparr> f3 (0, - v),
             Box \<lparr>width = 50, ascent = a4, descent = d4\<rparr> f4 (25, - v)])"
proof -
  let ?s1 = "\<lparr>x_off = 35, y_off = 0, lines = 0, run_ascent = max 0 a1, run_descent = max 0 d1\<rparr>"
  let ?s2 = "\<lparr>x_off = 80, y_off = 0, lines = 0,
              run_ascent = max (max 0 a1) a2, run_descent = max (max 0 d1) d2\<rparr>"
  let ?s3 = "\<lparr>x_off = 25, y_off = - v, lines = 1,
              run_ascent = max (max 0 a1) a2, run_descent = max 0 d3\<rparr>"
  let ?s4 = "\<lparr>x_off = 80, y_off = - v, lines = 1,
              run_ascent = max (max 0 a1) a2, run_descent = max (max 0 d3) d4\<rparr>"
  have 1: "layout_node v 5 80 hh initial_vars (Box g1 f1 p1) =
             (?s1, Box \<lparr>width = 30, ascent = a1, descent = d1\<rparr> f1 (0, 0))"
    by (simp add: layout_node_box [where f = f1 and wh = 80 and hh = hh, OF f1] initial_vars_def del: layout_node.simps)
  have 2: "layout_node v 5 80 hh ?s1 (Box g2 f2 p2) =
             (?s2, Box \<lparr>width = 40, ascent = a2, descent = d2\<rparr> f2 (35, 0))"
    by (simp add: layout_node_box [where f = f2 and wh = 80 and hh = hh, OF f2] del: layout_node.simps)
  have 3: "layout_node v 5 80 hh ?s2 (Box g3 f3 p3) =
             (?s3, Box \<lparr>width = 20, ascent = a3, descent = d3\<rparr> f3 (0, - v))"
    by (simp add: layout_node_box [where f = f3 and wh = 80 and hh = hh, OF f3] del: layout_node.simps)
  have 4: "layout_node v 5 80 hh ?s3 (Box g4 f4 p4) =
             (?s4, Box \<lparr>width = 50, ascent = a4, descent = d4\<rparr> f4 (25, - v))"
    by (simp add: layout_node_box [where f = f4 and wh = 80 and hh = hh, OF f4] del: layout_node.simps)
  show ?thesis
    by (simp only: layout_nodes.simps 1 2 3 4 Let_def split_conv)
qed


text \<open>
  C9: for a paragraph whose children are four boxes that measure 30, 40, 20 and 50 wide
  under the hint 80, with horizontal spacing 5, \<open>calc_layout\<close> places the first two boxes on
  the first line and wraps before the third (two lines, the line counter ends at 1); the
  paragraph's descent is the largest descent of the last line's boxes, its ascent is the
  largest ascent of the first line's boxes plus one line spacing of multiline shift, and its
  width is the hint. Ascent and descent are heights above and below the baseline
  (\<^verbatim>\<open>layout.h\<close>, lines 51 to 54), so they are not negative; the statement needs no more
  than one box of the first line with such an ascent and one box of the last line with such
  a descent.
\<close>

theorem calc_layout_four_boxes:
  assumes f1: "f1 80 hh = \<lparr>width = 30, ascent = a1, descent = d1\<rparr>"
      and f2: "f2 80 hh = \<lparr>width = 40, ascent = a2, descent = d2\<rparr>"
      and f3: "f3 80 hh = \<lparr>width = 20, ascent = a3, descent = d3\<rparr>"
      and f4: "f4 80 hh = \<lparr>width = 50, ascent = a4, descent = d4\<rparr>"
      and asc: "0 \<le> max a1 a2" and desc: "0 \<le> max d3 d4"
      and pb: "m_nodes pb = [Box g1 f1 p1, Box g2 f2 p2, Box g3 f3 p3, Box g4 f4 p4]" "m_hspacing pb = 5"
  shows "placements (m_nodes (calc_layout pb 80 hh)) =
           [(0, 0), (35, 0), (0, - m_vspacing pb), (25, - m_vspacing pb)]
       \<and> lines (final_vars pb 80 hh) = 1
       \<and> m_descent (calc_layout pb 80 hh) = max d3 d4
       \<and> m_multiline_shift (calc_layout pb 80 hh) = m_vspacing pb
       \<and> m_ascent (calc_layout pb 80 hh) = max a1 a2 + m_vspacing pb
       \<and> m_width (calc_layout pb 80 hh) = 80"
proof -
  note walk = four_boxes_walk [where ?f1.0 = f1 and ?f2.0 = f2 and ?f3.0 = f3 and ?f4.0 = f4 and hh = hh,
      OF f1 f2 f3 f4, of "m_vspacing pb" g1 p1 g2 p2 g3 p3 g4 p4]
  have a: "max (max 0 a1) a2 = max a1 a2" using asc by (simp add: max_def split: if_splits)
  have d: "max (max 0 d3) d4 = max d3 d4" using desc by (simp add: max_def split: if_splits)
  show ?thesis
    by (simp add: calc_layout_def final_vars_def pb walk a d Let_def del: layout_nodes.simps)
qed

theorem calc_layout_four_boxes_witness:
  "placements (m_nodes (calc_layout example_paragraph 80 0)) = [(0, 0), (35, 0), (0, - 15), (25, - 15)]
   \<and> lines (final_vars example_paragraph 80 0) = 1
   \<and> m_descent (calc_layout example_paragraph 80 0) = 4
   \<and> m_multiline_shift (calc_layout example_paragraph 80 0) = 15
   \<and> m_ascent (calc_layout example_paragraph 80 0) = 27
   \<and> m_width (calc_layout example_paragraph 80 0) = 80"
  using calc_layout_four_boxes
    [where ?f1.0 = "\<lambda>wh hh. \<lparr>width = 30, ascent = 10, descent = 3\<rparr>"
       and ?f2.0 = "\<lambda>wh hh. \<lparr>width = 40, ascent = 12, descent = 2\<rparr>"
       and ?f3.0 = "\<lambda>wh hh. \<lparr>width = 20, ascent = 9, descent = 4\<rparr>"
       and ?f4.0 = "\<lambda>wh hh. \<lparr>width = 50, ascent = 11, descent = 1\<rparr>"
       and hh = 0 and pb = example_paragraph
       and ?a1.0 = 10 and ?d1.0 = 3 and ?a2.0 = 12 and ?d2.0 = 2
       and ?a3.0 = 9 and ?d3.0 = 4 and ?a4.0 = 11 and ?d4.0 = 1
       and ?g1.0 = "\<lparr>width = 30, ascent = 10, descent = 3\<rparr>" and ?p1.0 = "(0, 0)"
       and ?g2.0 = "\<lparr>width = 40, ascent = 12, descent = 2\<rparr>" and ?p2.0 = "(0, 0)"
       and ?g3.0 = "\<lparr>width = 20, ascent = 9, descent = 4\<rparr>" and ?p3.0 = "(0, 0)"
       and ?g4.0 = "\<lparr>width = 50, ascent = 11, descent = 1\<rparr>" and ?p4.0 = "(0, 0)"]
  by (simp add: example_paragraph_def new_ParBox_def fixed_box_def)

lemma placements_no_box:
  "\<forall>n \<in> set pre. node_type n \<noteq> box \<Longrightarrow> placements (pre @ xs) = placements xs"
proof (induction pre)
  case Nil
  then show ?case by simp
next
  case (Cons n pre)
  then show ?case by (cases n) simp_all
qed

text \<open>
  C10: the wrap test of \<open>calc_layout\<close> comes before the box is placed. When the first box
  child (whatever non-box nodes precede it) measures wider than the hint, the walk wraps
  before any box is placed, so the first box is placed one line spacing down; from that
  child on the line counter is at least 1, the running ascent is 0 at every point of the
  walk, and the paragraph's ascent is exactly the line count times the line spacing.
\<close>

theorem first_box_too_wide:
  assumes pre: "\<forall>n \<in> set pre. node_type n \<noteq> box"
      and nodes: "m_nodes pb = pre @ Box g f pos # rest"
      and wide: "width (f width_hint height_hint) > width_hint"
  shows "(\<forall>k. run_ascent (vars_after pb width_hint height_hint k) = 0)
       \<and> (\<forall>k > length pre. 1 \<le> lines (vars_after pb width_hint height_hint k))
       \<and> (\<exists>ps. placements (m_nodes (calc_layout pb width_hint height_hint)) =
                  (0, - m_vspacing pb) # ps)
       \<and> 1 \<le> lines (final_vars pb width_hint height_hint)
       \<and> m_ascent (calc_layout pb width_hint height_hint) =
            of_int (lines (final_vars pb width_hint height_hint)) * m_vspacing pb"
proof -
  let ?walk = "layout_nodes (m_vspacing pb) (m_hspacing pb) width_hint height_hint"
  let ?step = "layout_node (m_vspacing pb) (m_hspacing pb) width_hint height_hint"
  obtain s1 n1 where first: "?step initial_vars (Box g f pos) = (s1, n1)"
    by (cases "?step initial_vars (Box g f pos)")
  have s1: "lines s1 = 1" "run_ascent s1 = 0"
    and n1: "n1 = Box (f width_hint height_hint) f (0, - m_vspacing pb)"
    using first wide by (auto simp: initial_vars_def Let_def)
  have after: "1 \<le> lines (fst (?walk initial_vars (pre @ Box g f pos # ns)))
             \<and> run_ascent (fst (?walk initial_vars (pre @ Box g f pos # ns))) = 0" for ns
    using layout_nodes_later_lines [of s1 "m_vspacing pb" "m_hspacing pb" width_hint height_hint ns] s1
    by (simp add: layout_nodes_append layout_nodes_no_box [OF pre] first split_beta
          del: layout_node.simps)
  have late: "1 \<le> lines (vars_after pb width_hint height_hint k)
              \<and> run_ascent (vars_after pb width_hint height_hint k) = 0"
    if "length pre < k" for k
  proof -
    from that obtain j where k: "k = Suc (length pre + j)"
      using less_iff_Suc_add by auto
    have "take k (m_nodes pb) = pre @ Box g f pos # take j rest"
      by (simp add: nodes k)
    with after [of "take j rest"] show ?thesis by (simp add: vars_after_def)
  qed
  have early: "run_ascent (vars_after pb width_hint height_hint k) = 0"
    if "k \<le> length pre" for k
  proof -
    have "take k (m_nodes pb) = take k pre"
      using that by (simp add: nodes)
    moreover have "\<forall>n \<in> set (take k pre). node_type n \<noteq> box"
      using pre by (meson in_set_takeD)
    ultimately show ?thesis
      by (simp add: vars_after_def layout_nodes_no_box initial_vars_def)
  qed
  have ascent: "run_ascent (vars_after pb width_hint height_hint k) = 0" for k
    using early [of k] late [of k] by (cases "k \<le> length pre") simp_all
  have whole: "1 \<le> lines (final_vars pb width_hint height_hint)"
              "run_ascent (final_vars pb width_hint height_hint) = 0"
    using after [of rest] by (simp_all add: final_vars_def nodes)
  have "snd (?walk initial_vars (m_nodes pb)) = pre @ n1 # snd (?walk s1 rest)"
    by (simp add: nodes layout_nodes_append layout_nodes_no_box [OF pre] first split_beta
          del: layout_node.simps)
  then have "placements (m_nodes (calc_layout pb width_hint height_hint)) =
               (0, - m_vspacing pb) # placements (snd (?walk s1 rest))"
    by (simp add: calc_layout_def split_beta Let_def placements_no_box [OF pre] n1)
  moreover have "m_ascent (calc_layout pb width_hint height_hint) =
          run_ascent (final_vars pb width_hint height_hint)
          + of_int (lines (final_vars pb width_hint height_hint)) * m_vspacing pb"
    by (simp add: calc_layout_def final_vars_def split_beta Let_def)
  ultimately show ?thesis
    using whole late ascent by simp
qed

theorem first_box_too_wide_witness:
  "run_ascent (vars_after wide_paragraph 80 0 1) = 0
   \<and> run_ascent (vars_after wide_paragraph 80 0 2) = 0
   \<and> lines (vars_after wide_paragraph 80 0 2) = 1
   \<and> placements (m_nodes (calc_layout wide_paragraph 80 0)) = [(0, - 15), (0, - 30)]
   \<and> lines (final_vars wide_paragraph 80 0) = 2
   \<and> m_ascent (calc_layout wide_paragraph 80 0) = 30"
proof -
  have nodes: "m_nodes wide_paragraph =
      [Glue 5 2 1] @ Box \<lparr>width = 90, ascent = 10, descent = 3\<rparr>
        (\<lambda>wh hh. \<lparr>width = 90, ascent = 10, descent = 3\<rparr>) (0, 0) # [fixed_box 20 12 2]"
    by (simp add: wide_paragraph_def new_ParBox_def fixed_box_def)
  have run: "lines (final_vars wide_paragraph 80 0) = 2"
    "lines (vars_after wide_paragraph 80 0 2) = 1"
    "placements (m_nodes (calc_layout wide_paragraph 80 0)) = [(0, - 15), (0, - 30)]"
    by (simp_all add: final_vars_def vars_after_def calc_layout_def wide_paragraph_def
          new_ParBox_def fixed_box_def initial_vars_def Let_def)
  have spacing: "m_vspacing wide_paragraph = 15"
    by (simp add: wide_paragraph_def new_ParBox_def)
  from first_box_too_wide [OF _ nodes, of 80 0] run spacing show ?thesis
    by simp
qed

subsection \<open>The adjustment ratio\<close>

text \<open>
  C6: where the sums and the node are in range and \<open>line_lengths\<close> is not empty,
  \<open>compute_adjustment_ratio\<close> returns \<open>(avail - len) / stretch_sum\<close> when \<open>len < avail\<close> and
  the stretch is positive, the infinity sentinel when \<open>len < avail\<close> and the stretch is 0,
  \<open>(avail - len) / shrink_sum\<close> when \<open>len > avail\<close> and the shrink is positive, the sentinel
  when \<open>len > avail\<close> and the shrink is 0, and 0 when \<open>len = avail\<close>; \<open>avail\<close> is
  \<open>line_lengths[line]\<close> when the line is in range and the last entry otherwise, and \<open>len\<close> is
  the width between the two positions plus the width of a penalty at the second. A width
  of 90 against 100 available with a stretch of 20 gives 0.5, which is fitness class 1.
\<close>

theorem compute_adjustment_ratio_cases:
  assumes "i1 < length (m_sum_widths pb)" "i2 < length (m_sum_widths pb)"
      and "i1 < length (m_sum_stretch pb)" "i2 < length (m_sum_stretch pb)"
      and "i1 < length (m_sum_shrink pb)" "i2 < length (m_sum_shrink pb)"
      and "i2 < length (m_nodes pb)" "line_lengths \<noteq> []"
  shows "let len = m_sum_widths pb ! i2 - m_sum_widths pb ! i1
                   + (if node_type (m_nodes pb ! i2) = penalty then node_width (m_nodes pb ! i2) else 0);
             avail = (if line_no < length line_lengths then line_lengths ! line_no
                      else last line_lengths);
             stretch_sum = m_sum_stretch pb ! i2 - m_sum_stretch pb ! i1;
             shrink_sum = m_sum_shrink pb ! i2 - m_sum_shrink pb ! i1;
             r = compute_adjustment_ratio S pb i1 i2 line_no line_lengths
         in (len < avail \<and> stretch_sum > 0 \<longrightarrow> r = Inr ((avail - len) / stretch_sum))
          \<and> (len < avail \<and> stretch_sum = 0 \<longrightarrow> r = Inr (glue_infinity S))
          \<and> (len > avail \<and> shrink_sum > 0 \<longrightarrow> r = Inr ((avail - len) / shrink_sum))
          \<and> (len > avail \<and> shrink_sum = 0 \<longrightarrow> r = Inr (glue_infinity S))
          \<and> (len = avail \<longrightarrow> r = Inr 0)
          \<and> (len = 90 \<and> avail = 100 \<and> stretch_sum = 20 \<longrightarrow>
                r = Inr 0.5 \<and> fitness_class_of 0.5 = 1)"
  using assms
  by (simp add: compute_adjustment_ratio_def measure_width_def measure_stretch_def
        measure_shrink_def vector_at_def available_length_def and_then_def Let_def
        fitness_class_of_def)

theorem compute_adjustment_ratio_cases_witness:
  "compute_adjustment_ratio example_sentinels ninety_wide 0 3 0 [100] = Inr 0.5
   \<and> fitness_class_of 0.5 = 1
   \<and> m_sum_widths ninety_wide ! 3 - m_sum_widths ninety_wide ! 0 = 90
   \<and> m_sum_stretch ninety_wide ! 3 - m_sum_stretch ninety_wide ! 0 = 20"
proof -
  have sums: "m_sum_widths ninety_wide = [0, 45, 45, 90]" "m_sum_stretch ninety_wide = [0, 0, 20, 20]"
     "m_sum_shrink ninety_wide = [0, 0, 0, 0]"
     "m_nodes ninety_wide = [fixed_box 45 8 2, Glue 0 20 0, fixed_box 45 8 2, Glue 0 0 0]"
    by (simp_all add: ninety_wide_def with_sums_def new_ParBox_def fixed_box_def)
  from compute_adjustment_ratio_cases [of 0 ninety_wide 3 "[100]" 0 example_sentinels] sums
  show ?thesis
    by (simp add: Let_def)
qed

subsection \<open>The active list\<close>

lemma and_then_Inr:
  "and_then x f = Inr y \<longleftrightarrow> (\<exists>v. x = Inr v \<and> f v = Inr y)"
  by (cases x) (simp_all add: and_then_def)

lemma set_add_active_node: "set (add_active_node bs n) \<subseteq> insert n (set bs)"
  by (induction bs) auto

lemma sorted_add_active_node:
  "sorted_wrt (\<lambda>a b. line a \<le> line b) bs \<Longrightarrow>
   sorted_wrt (\<lambda>a b. line a \<le> line b) (add_active_node bs n)"
proof (induction bs)
  case Nil
  then show ?case by simp
next
  case (Cons b bs)
  show ?case
  proof (cases "line b < line n")
    case True
    have "line b \<le> line x" if "x \<in> set (add_active_node bs n)" for x
      using that set_add_active_node [of bs n] Cons.prems True by auto
    with Cons True show ?thesis by simp
  next
    case False
    with Cons.prems show ?thesis by auto
  qed
qed

lemma no_duplicate_fresh:
  "sorted_wrt (\<lambda>a b. line a \<le> line b) bs \<Longrightarrow> \<forall>b \<in> set bs. line n \<le> line b \<Longrightarrow>
   \<not> same_line_duplicate bs n \<Longrightarrow> triple n \<notin> triple ` set bs"
proof (induction bs)
  case Nil
  then show ?case by simp
next
  case (Cons b bs)
  show ?case
  proof (cases "line b = line n")
    case True
    with Cons.prems have differ: "triple b \<noteq> triple n" and rest: "\<not> same_line_duplicate bs n"
      by (auto simp: triple_def split: if_splits)
    from Cons.IH rest Cons.prems have "triple n \<notin> triple ` set bs" by simp
    with differ show ?thesis by auto
  next
    case False
    with Cons.prems have "line n < line x" if "x \<in> set (b # bs)" for x
      using that by fastforce
    then show ?thesis by (fastforce simp: triple_def)
  qed
qed

lemma distinct_add_active_node:
  "sorted_wrt (\<lambda>a b. line a \<le> line b) bs \<Longrightarrow> distinct (map triple bs) \<Longrightarrow>
   distinct (map triple (add_active_node bs n))"
proof (induction bs)
  case Nil
  then show ?case by simp
next
  case (Cons b bs)
  show ?case
  proof (cases "line b < line n")
    case True
    then have "triple b \<noteq> triple n" by (auto simp: triple_def)
    moreover have "triple b \<notin> triple ` set bs" using Cons.prems by auto
    ultimately have "triple b \<notin> triple ` set (add_active_node bs n)"
      using set_add_active_node [of bs n] by auto
    with Cons True show ?thesis by simp
  next
    case False
    then have eq: "add_active_node (b # bs) n =
                     (if same_line_duplicate (b # bs) n then b # bs else n # b # bs)"
      by simp
    show ?thesis
    proof (cases "same_line_duplicate (b # bs) n")
      case True
      with eq have "add_active_node (b # bs) n = b # bs"
        by (simp del: same_line_duplicate.simps)
      with Cons.prems(2) show ?thesis by simp
    next
      case nodup: False
      with eq have ins: "add_active_node (b # bs) n = n # b # bs"
        by (simp del: same_line_duplicate.simps)
      have "\<forall>x \<in> set (b # bs). line n \<le> line x"
        using False Cons.prems(1) by auto
      from no_duplicate_fresh [OF Cons.prems(1) this nodup] Cons.prems(2) ins
      show ?thesis by simp
    qed
  qed
qed

lemma duplicate_found:
  "sorted_wrt (\<lambda>a b. line a \<le> line b) bs \<Longrightarrow> \<forall>b \<in> set bs. line n \<le> line b \<Longrightarrow>
   \<exists>x \<in> set bs. triple x = triple n \<Longrightarrow> same_line_duplicate bs n"
proof (induction bs)
  case Nil
  then show ?case by simp
next
  case (Cons b bs)
  show ?case
  proof (cases "line b = line n")
    case True
    show ?thesis
    proof (cases "triple b = triple n")
      case same: True
      with True show ?thesis by (simp add: triple_def)
    next
      case False
      with Cons.prems have "\<exists>x \<in> set bs. triple x = triple n" by auto
      with Cons True show ?thesis by simp
    qed
  next
    case False
    with Cons.prems(1,2) have "line n < line x" if "x \<in> set (b # bs)" for x
      using that by fastforce
    with Cons.prems(3) show ?thesis by (fastforce simp: triple_def)
  qed
qed

lemma duplicate_dropped:
  "sorted_wrt (\<lambda>a b. line a \<le> line b) bs \<Longrightarrow> \<exists>x \<in> set bs. triple x = triple n \<Longrightarrow>
   add_active_node bs n = bs"
proof (induction bs)
  case Nil
  then show ?case by simp
next
  case (Cons b bs)
  show ?case
  proof (cases "line b < line n")
    case True
    then have "triple b \<noteq> triple n" by (auto simp: triple_def)
    with Cons.prems have "\<exists>x \<in> set bs. triple x = triple n" by auto
    with Cons True show ?thesis by simp
  next
    case False
    have "\<forall>x \<in> set (b # bs). line n \<le> line x"
      using False Cons.prems(1) by auto
    from duplicate_found [OF Cons.prems(1) this Cons.prems(2)] False show ?thesis
      by (simp del: same_line_duplicate.simps)
  qed
qed

lemma active_ok_add_active_node: "active_ok bs \<Longrightarrow> active_ok (add_active_node bs n)"
  by (simp add: active_ok_def sorted_add_active_node distinct_add_active_node)

lemma active_ok_foldl: "active_ok bs \<Longrightarrow> active_ok (foldl add_active_node bs ns)"
  by (induction ns arbitrary: bs) (simp_all add: active_ok_add_active_node)

lemma visit_active_kept:
  "visit_active S pb ll tol fd fld i active = Inr (kept, breaks) \<Longrightarrow>
     set kept \<subseteq> set active \<and> (active_ok active \<longrightarrow> active_ok kept)"
proof (induction active arbitrary: kept breaks)
  case Nil
  then show ?case by simp
next
  case (Cons a rest)
  from Cons.prems obtain r erase where
    erase: "(if r < - 1 then Inr True else is_forced_break S (m_nodes pb) i) = Inr erase" and
    body: "(if erase then visit_active S pb ll tol fd fld i rest
            else and_then (if within_tolerance r tol
                   then and_then (new_breakpoint S pb fd fld i a r) (\<lambda>b. Inr [b])
                   else Inr []) (\<lambda>new.
                 and_then (visit_active S pb ll tol fd fld i rest)
                   (\<lambda>(kept, breaks). Inr (a # kept, new @ breaks)))) = Inr (kept, breaks)"
    by (auto simp: and_then_Inr)
  show ?case
  proof (cases erase)
    case True
    with body Cons.IH [of kept breaks] show ?thesis
      by (auto simp: active_ok_def)
  next
    case False
    with body obtain kept' breaks' where
      rest: "visit_active S pb ll tol fd fld i rest = Inr (kept', breaks')" and
      kept: "kept = a # kept'"
      by (auto simp: and_then_Inr)
    from Cons.IH [OF rest] kept show ?thesis
      by (auto simp: active_ok_def)
  qed
qed

lemma break_step_ok:
  assumes "break_step S pb ll tol fd fld i active = Inr (active', fb)" "active_ok active"
  shows "active_ok active'"
proof -
  from assms(1) obtain feasible where
    act: "(if feasible
           then and_then (visit_active S pb ll tol fd fld i active)
                  (\<lambda>(kept, breaks). Inr (foldl add_active_node kept breaks))
           else Inr active) = Inr active'"
    by (auto simp: break_step_def and_then_Inr)
  show ?thesis
  proof (cases feasible)
    case True
    with act obtain kept breaks where
      v: "visit_active S pb ll tol fd fld i active = Inr (kept, breaks)" and
      a: "active' = foldl add_active_node kept breaks"
      by (auto simp: and_then_Inr)
    from visit_active_kept [OF v] assms(2) have "active_ok kept" by simp
    with a show ?thesis by (simp add: active_ok_foldl)
  next
    case False
    with act assms(2) show ?thesis by simp
  qed
qed

lemma break_loop_ok:
  "break_loop S pb ll tol fd fld is st = Inr st' \<Longrightarrow> active_ok (fst st) \<Longrightarrow> active_ok (fst st')"
proof (induction "is" arbitrary: st)
  case Nil
  then show ?case by simp
next
  case (Cons i "is")
  from Cons.prems(1) obtain st1 where
    step: "break_step S pb ll tol fd fld i (fst st) = Inr st1" and
    loop: "break_loop S pb ll tol fd fld is st1 = Inr st'"
    by (auto simp: and_then_Inr)
  from break_step_ok [of S pb ll tol fd fld i "fst st" "fst st1" "snd st1"] step Cons.prems(2)
  have "active_ok (fst st1)" by simp
  from Cons.IH [OF loop this] show ?case .
qed

lemma start_ok: "active_ok [start_breakpoint]"
  by (simp add: active_ok_def)


text \<open>
  C7: the active list never holds two entries of the same (line number, fitness class,
  position) and stays sorted by line number: this holds after every iteration of the scan
  of \<open>compute_breaks\<close>, after the erasures of one iteration, and after every call of
  \<open>add_active_node\<close>; and a new breakpoint whose triple is already in the list is dropped,
  the list staying as it was.
\<close>

theorem active_set_invariant:
  "(scan_upto S pb line_lengths tolerance fitness_demerit flagged_demerit k = Inr (active_nodes, fb)
      \<longrightarrow> active_ok active_nodes)
   \<and> (active_ok bs \<and> visit_active S pb line_lengths tolerance fitness_demerit flagged_demerit i bs
         = Inr (kept, breaks) \<longrightarrow> active_ok kept)
   \<and> (active_ok bs \<longrightarrow> active_ok (add_active_node bs node))
   \<and> (active_ok bs \<and> (\<exists>b \<in> set bs. triple b = triple node) \<longrightarrow> add_active_node bs node = bs)"
proof -
  have "active_ok active_nodes"
    if "scan_upto S pb line_lengths tolerance fitness_demerit flagged_demerit k = Inr (active_nodes, fb)"
    using break_loop_ok [OF that [unfolded scan_upto_def]] start_ok by simp
  moreover have "active_ok kept"
    if "active_ok bs" "visit_active S pb line_lengths tolerance fitness_demerit flagged_demerit i bs
         = Inr (kept, breaks)"
    using visit_active_kept [OF that(2)] that(1) by simp
  moreover have "add_active_node bs node = bs"
    if "active_ok bs" "\<exists>b \<in> set bs. triple b = triple node"
    using duplicate_dropped [of bs node] that by (simp add: active_ok_def)
  ultimately show ?thesis
    by (auto simp: active_ok_add_active_node)
qed

theorem active_set_invariant_witness:
  "scan_upto example_sentinels two_lines [10] 1 100 100 4 =
     Inr ([Breakpoint 1 1 1 10 0 0 1 None, Breakpoint 3 2 1 20 0 1 1 None], [1])
   \<and> active_ok [Breakpoint 1 1 1 10 0 0 1 None, Breakpoint 3 2 1 20 0 1 1 None]
   \<and> active_ok (add_active_node [Breakpoint 1 1 1 10 0 0 1 None, Breakpoint 3 2 1 20 0 1 1 None]
                  (Breakpoint 3 2 1 20 0 1 7 None))
   \<and> add_active_node [Breakpoint 1 1 1 10 0 0 1 None, Breakpoint 3 2 1 20 0 1 1 None]
        (Breakpoint 3 2 1 20 0 1 7 None) =
      [Breakpoint 1 1 1 10 0 0 1 None, Breakpoint 3 2 1 20 0 1 1 None]"
proof -
  let ?bs = "[Breakpoint 1 1 1 10 0 0 1 None, Breakpoint 3 2 1 20 0 1 1 None]"
  have run: "scan_upto example_sentinels two_lines [10] 1 100 100 4 = Inr (?bs, [1])"
    by code_simp
  have dup: "\<exists>b \<in> set ?bs. triple b = triple (Breakpoint 3 2 1 20 0 1 7 None)"
    by (simp add: triple_def)
  from active_set_invariant
         [where S = example_sentinels and pb = two_lines and line_lengths = "[10]" and tolerance = 1
            and fitness_demerit = 100 and flagged_demerit = 100 and k = 4
            and active_nodes = ?bs and fb = "[1]" and bs = ?bs
            and node = "Breakpoint 3 2 1 20 0 1 7 None"]
       run dup
  show ?thesis by simp
qed


subsection \<open>What the scan records and what \<open>compute_breaks\<close> returns\<close>

text \<open>
  C1 (the code departs from the specification): for a node list that is not empty \<open>compute_breaks\<close>
  returns no break sequence at all. Each iteration builds the local \<^verbatim>\<open>final_breaks\<close> and
  drops it, and the function ends without a \<^verbatim>\<open>return\<close>; for a single box the list built in
  the only iteration is \<open>[0]\<close>, the position of the starting breakpoint.
\<close>

theorem compute_breaks_returns_no_list:
  assumes "m_nodes pb \<noteq> []"
  shows "compute_breaks S pb line_lengths tolerance fitness_demerit flagged_demerit \<noteq> Inr bs"
  using assms by (simp add: compute_breaks_def Let_def and_then_def split: sum.splits)

theorem compute_breaks_returns_no_list_witness:
  "compute_breaks example_sentinels one_box [100] 1 100 100 = Inl NoReturn
   \<and> scan_upto example_sentinels one_box [100] 1 100 100 1 = Inr ([start_breakpoint], [0])
   \<and> compute_breaks example_sentinels one_box [100] 1 100 100 \<noteq> Inr [0]"
proof -
  have run: "compute_breaks example_sentinels one_box [100] 1 100 100 = Inl NoReturn"
    "scan_upto example_sentinels one_box [100] 1 100 100 1 = Inr ([start_breakpoint], [0])"
    by code_simp+
  have "m_nodes one_box \<noteq> []"
    by (simp add: one_box_def new_ParBox_def)
  from compute_breaks_returns_no_list [OF this, of example_sentinels "[100]" 1 100 100 "[0]"] run
  show ?thesis by simp
qed

text \<open>
  C2 (the code departs from the specification): a breakpoint recorded at position \<open>i\<close> from the
  active breakpoint \<open>a\<close> has the line number of \<open>a\<close> plus 1, but its demerits are those of the
  one line alone, cut to an \<^verbatim>\<open>int\<close>, with nothing of \<open>a\<close>'s demerits added, and its
  \<^verbatim>\<open>previous\<close> pointer is null; the walk back from it therefore yields its own position
  only.
\<close>

theorem new_breakpoint_record:
  assumes "new_breakpoint S pb fitness_demerit flagged_demerit i a r = Inr b"
  shows "position b = i \<and> line b = line a + 1 \<and> previous b = None
       \<and> final_breaks_of b = [i]
       \<and> (\<exists>forced. double_to_int
             (line_demerits fitness_demerit flagged_demerit (penalty_cost (m_nodes pb ! i)) forced
                (flagged (m_nodes pb ! i)) (flagged (m_nodes pb ! position a)) r (fitness_class a))
            = Inr (demerits b))"
  using assms
  by (auto simp: new_breakpoint_def and_then_Inr vector_at_def final_breaks_of_def
           split: if_splits)

theorem new_breakpoint_record_witness:
  "visit_active example_sentinels (with_sums two_lines) [10] 1 100 100 3
      [start_breakpoint, Breakpoint 1 1 1 10 0 0 1 None] =
     Inr ([Breakpoint 1 1 1 10 0 0 1 None], [Breakpoint 3 2 1 20 0 1 1 None])
   \<and> new_breakpoint example_sentinels (with_sums two_lines) 100 100 3
        (Breakpoint 1 1 1 10 0 0 1 None) 0 = Inr (Breakpoint 3 2 1 20 0 1 1 None)
   \<and> scan_upto example_sentinels two_lines [10] 1 100 100 4 =
        Inr ([Breakpoint 1 1 1 10 0 0 1 None, Breakpoint 3 2 1 20 0 1 1 None], [1])
   \<and> final_breaks_of (Breakpoint 3 2 1 20 0 1 1 None) = [3]"
proof -
  have new: "new_breakpoint example_sentinels (with_sums two_lines) 100 100 3
        (Breakpoint 1 1 1 10 0 0 1 None) 0 = Inr (Breakpoint 3 2 1 20 0 1 1 None)"
    by code_simp
  have run: "visit_active example_sentinels (with_sums two_lines) [10] 1 100 100 3
      [start_breakpoint, Breakpoint 1 1 1 10 0 0 1 None] =
     Inr ([Breakpoint 1 1 1 10 0 0 1 None], [Breakpoint 3 2 1 20 0 1 1 None])"
    "scan_upto example_sentinels two_lines [10] 1 100 100 4 =
        Inr ([Breakpoint 1 1 1 10 0 0 1 None, Breakpoint 3 2 1 20 0 1 1 None], [1])"
    by code_simp+
  from new_breakpoint_record [OF new] new run show ?thesis by simp
qed

text \<open>
  C3 (the code departs from the specification): for an active breakpoint that is not erased, whose
  ratio \<open>r\<close> is therefore at least \<open>- 1\<close>, the test of line 317 records the new breakpoint
  exactly when the tolerance is at least 1, whatever \<open>r\<close> is: with a tolerance of 1 a line
  of ratio 2 is recorded, with a tolerance of 0.5 a line of ratio 0 is not.
\<close>

theorem candidate_recorded_iff_tolerance:
  assumes "compute_adjustment_ratio S pb (position a) i (line a) line_lengths = Inr r"
      and "\<not> r < - 1" and "is_forced_break S (m_nodes pb) i = Inr False"
      and "new_breakpoint S pb fitness_demerit flagged_demerit i a r = Inr b"
  shows "visit_active S pb line_lengths tolerance fitness_demerit flagged_demerit i [a] =
           Inr ([a], if 1 \<le> tolerance then [b] else [])"
  using assms by (simp add: and_then_def within_tolerance_def)

theorem candidate_recorded_iff_tolerance_witness:
  "compute_adjustment_ratio example_sentinels (with_sums stretchy) 0 2 0 [45] = Inr 2
   \<and> visit_active example_sentinels (with_sums stretchy) [45] 1 100 100 2 [start_breakpoint] =
       Inr ([start_breakpoint], [Breakpoint 2 1 3 25 10 0 513922501 None])
   \<and> compute_adjustment_ratio example_sentinels (with_sums stretchy) 0 2 0 [25] = Inr 0
   \<and> visit_active example_sentinels (with_sums stretchy) [25] 0.5 100 100 2 [start_breakpoint] =
       Inr ([start_breakpoint], [])"
proof -
  have r1: "compute_adjustment_ratio example_sentinels (with_sums stretchy)
              (position start_breakpoint) 2 (line start_breakpoint) [45] = Inr 2"
    and r2: "compute_adjustment_ratio example_sentinels (with_sums stretchy)
              (position start_breakpoint) 2 (line start_breakpoint) [25] = Inr 0"
    by code_simp+
  have forced: "is_forced_break example_sentinels (m_nodes (with_sums stretchy)) 2 = Inr False"
    by code_simp
  have b1: "new_breakpoint example_sentinels (with_sums stretchy) 100 100 2 start_breakpoint 2 =
              Inr (Breakpoint 2 1 3 25 10 0 513922501 None)"
    and b2: "new_breakpoint example_sentinels (with_sums stretchy) 100 100 2 start_breakpoint 0 =
              Inr (Breakpoint 2 1 1 25 10 0 1 None)"
    by code_simp+
  have pos: "position start_breakpoint = 0" "line start_breakpoint = 0"
    by (simp_all add: start_breakpoint_def)
  from candidate_recorded_iff_tolerance [OF r1 _ forced b1, of 1]
       candidate_recorded_iff_tolerance [OF r2 _ forced b2, of "0.5"] r1 r2 pos
  show ?thesis by simp
qed

text \<open>
  C4 (the code departs from the specification): when the active list becomes empty, at a forced
  break or through the erasure of an entry with \<open>r < - 1\<close>, the search for the lowest
  demerits dereferences \<^verbatim>\<open>begin()\<close> of the empty list; nothing is reported to the caller.
\<close>

theorem empty_active_list_undefined:
  "visit_active example_sentinels (with_sums forced_end) [100] 1 100 100 1 [start_breakpoint] =
     Inr ([], [])
   \<and> scan_upto example_sentinels forced_end [100] 1 100 100 1 = Inr ([start_breakpoint], [0])
   \<and> scan_upto example_sentinels forced_end [100] 1 100 100 2 = Inl EmptyActiveList
   \<and> compute_breaks example_sentinels forced_end [100] 1 100 100 = Inl EmptyActiveList
   \<and> compute_adjustment_ratio example_sentinels (with_sums overfull) 0 2 0 [10] = Inr (- 20)
   \<and> visit_active example_sentinels (with_sums overfull) [10] 1 100 100 2 [start_breakpoint] =
       Inr ([], [])
   \<and> compute_breaks example_sentinels overfull [10] 1 100 100 = Inl EmptyActiveList"
  by code_simp

text \<open>
  C5 (the code departs from the specification): at a forced break at position \<open>k\<close> (with a positive
  infinity sentinel, so that the position is feasible) every active breakpoint is erased
  before a line ending at \<open>k\<close> is recorded, the active list is left empty, and the iteration
  does not complete: no breakpoint at \<open>k\<close> exists and no break sequence is returned.
\<close>

theorem forced_break_empties_active_list:
  assumes "0 < penalty_infinity S" and "is_forced_break S (m_nodes pb) k = Inr True"
  shows "(visit_active S pb line_lengths tolerance fitness_demerit flagged_demerit k active_nodes
            = Inr (kept, breaks) \<longrightarrow> kept = [] \<and> breaks = [])
       \<and> break_step S pb line_lengths tolerance fitness_demerit flagged_demerit k active_nodes
            \<noteq> Inr st"
proof -
  have visit: "kept = [] \<and> breaks = []"
    if "visit_active S pb line_lengths tolerance fitness_demerit flagged_demerit k bs
          = Inr (kept, breaks)" for bs kept breaks
    using that assms(2)
    by (induction bs arbitrary: kept breaks) (auto simp: and_then_Inr split: if_splits)
  have "break_step S pb line_lengths tolerance fitness_demerit flagged_demerit k active_nodes
          \<noteq> Inr st"
  proof
    assume step: "break_step S pb line_lengths tolerance fitness_demerit flagged_demerit k
                    active_nodes = Inr st"
    from assms(2) have forced: "k < length (m_nodes pb)" "node_type (m_nodes pb ! k) = penalty"
      "penalty_cost (m_nodes pb ! k) \<le> - penalty_infinity S"
      by (auto simp: is_forced_break_def Let_def split: if_splits)
    with assms(1) have feasible: "is_feasible_breakpoint S (m_nodes pb) k = Inr True"
      by (simp add: is_feasible_breakpoint_def Let_def)
    from step feasible obtain kept breaks m where
      v: "visit_active S pb line_lengths tolerance fitness_demerit flagged_demerit k active_nodes
            = Inr (kept, breaks)" and
      low: "lowest_demerits (foldl add_active_node kept breaks) = Inr m"
      by (auto simp: break_step_def and_then_Inr)
    from visit [OF v] low show False
      by (simp add: lowest_demerits_def)
  qed
  with visit show ?thesis by blast
qed

theorem forced_break_empties_active_list_witness:
  "visit_active example_sentinels (with_sums forced_middle) [100] 1 100 100 1 [start_breakpoint] =
     Inr ([], [])
   \<and> break_step example_sentinels (with_sums forced_middle) [100] 1 100 100 1 [start_breakpoint] =
       Inl EmptyActiveList
   \<and> compute_breaks example_sentinels forced_middle [100] 1 100 100 = Inl EmptyActiveList"
proof -
  have run: "visit_active example_sentinels (with_sums forced_middle) [100] 1 100 100 1
               [start_breakpoint] = Inr ([], [])"
    "break_step example_sentinels (with_sums forced_middle) [100] 1 100 100 1 [start_breakpoint] =
       Inl EmptyActiveList"
    "compute_breaks example_sentinels forced_middle [100] 1 100 100 = Inl EmptyActiveList"
    by code_simp+
  have pre: "0 < penalty_infinity example_sentinels"
    "is_forced_break example_sentinels (m_nodes (with_sums forced_middle)) 1 = Inr True"
    by code_simp+
  from forced_break_empties_active_list [OF pre] run show ?thesis by simp
qed

end
